theory Spec2Isabelle
  imports Main "HOL-Library.Sublist"
begin

section \<open>Exceptions and Python values\<close>

text \<open>
  Every exception the downloader can meet is a value of \<open>exn\<close>; a call that may raise
  returns \<open>exn + 'a\<close> with \<open>Inl\<close> for the raised exception. The operating-system errors
  carry the file name they were raised for, as Python's \<open>OSError.filename\<close> does, and a
  \<open>ValueError\<close> carries its message.
\<close>

datatype exn =
    ValueError string
  | TypeError
  | RequestException string
  | HTTPError nat
  | ParseError
  | FileExistsError string
  | FileNotFoundError string
  | NotADirectoryError string
  | IsADirectoryError string
  | RecursionError

text \<open>
  A text that is handed to Python's \<open>int()\<close> (a header value, an environment variable) is
  represented by what \<open>int()\<close> makes of it: \<open>Numeral n\<close> is a text that denotes the
  integer \<open>n\<close>, \<open>Other t\<close> is any other text, on which \<open>int()\<close> raises \<open>ValueError\<close>.
\<close>

datatype text_value = Numeral int | Other string

fun py_int :: "text_value \<Rightarrow> exn + int" where
  "py_int (Numeral n) = Inr n"
| "py_int (Other t) = Inl (ValueError (''invalid literal for int() with base 10: '' @ t))"

text \<open>Truthiness of an optional string: \<open>None\<close> and the empty string are falsy.\<close>

fun truthy :: "string option \<Rightarrow> bool" where
  "truthy None = False"
| "truthy (Some t) = (t \<noteq> [])"

text \<open>\<open>a or b\<close> on optional strings.\<close>

definition py_or :: "string option \<Rightarrow> string option \<Rightarrow> string option" where
  "py_or a b = (if truthy a then a else b)"

section \<open>Construction: \<open>WebDAVDownloader.__init__\<close>\<close>

record environ =
  SLURM_CPUS_PER_TASK :: "text_value option"
  SLURM_NODENAME :: "string option"
  SLURM_JOB_ID :: "string option"
  WEBDAV_URL :: "string option"
  WEBDAV_USERNAME :: "string option"
  WEBDAV_PASSWORD :: "string option"
  cpu_count :: "nat option"

record downloader =
  use_slurm :: bool
  slurm_cpus :: int
  slurm_node :: string
  job_id :: string
  base_url :: string
  username :: string
  password :: string

definition missing_credentials :: string where
  "missing_credentials = ''Missing required credentials. Provide either direct parameters or environment variables: WEBDAV_URL, WEBDAV_USERNAME, WEBDAV_PASSWORD''"

text \<open>\<open>str.rstrip('/')\<close>\<close>

definition rstrip_slash :: "string \<Rightarrow> string" where
  "rstrip_slash t = rev (dropWhile (\<lambda>c. c = CHR ''/'') (rev t))"

text \<open>\<open>os.environ.get(key, default)\<close> on a string-valued variable.\<close>

definition env_get :: "string option \<Rightarrow> string \<Rightarrow> string" where
  "env_get v dflt = (case v of None \<Rightarrow> dflt | Some t \<Rightarrow> t)"

text \<open>
  Lines 26 to 33: the CPU budget, node name and job identity. With \<open>use_slurm\<close> the budget
  is \<open>int(os.environ.get('SLURM_CPUS_PER_TASK', 1))\<close>; otherwise it is
  \<open>num_cpus or os.cpu_count() or 1\<close>.
\<close>

definition slurm_info :: "environ \<Rightarrow> int option \<Rightarrow> bool \<Rightarrow> exn + (int \<times> string \<times> string)" where
  "slurm_info env num_cpus slurm =
     (if slurm then
        (case (case SLURM_CPUS_PER_TASK env of None \<Rightarrow> Inr 1 | Some t \<Rightarrow> py_int t) of
           Inl e \<Rightarrow> Inl e
         | Inr n \<Rightarrow> Inr (n, env_get (SLURM_NODENAME env) ''local'', env_get (SLURM_JOB_ID env) ''no_job''))
      else
        Inr ((case num_cpus of
                Some n \<Rightarrow> if n \<noteq> 0 then n
                          else (case cpu_count env of Some c \<Rightarrow> if c \<noteq> 0 then int c else 1 | None \<Rightarrow> 1)
              | None \<Rightarrow> (case cpu_count env of Some c \<Rightarrow> if c \<noteq> 0 then int c else 1 | None \<Rightarrow> 1)),
             ''local'', ''no_job''))"

text \<open>
  Lines 23 to 44 of \<open>__init__\<close>. The logging and session set-up that follow (lines 46 to
  53) write to the log file and build the connection pool; they raise no \<open>ValueError\<close>
  and are not part of the model.
\<close>

definition init :: "environ \<Rightarrow> string option \<Rightarrow> string option \<Rightarrow> string option \<Rightarrow> int option \<Rightarrow> bool
    \<Rightarrow> exn + downloader" where
  "init env url user pw num_cpus slurm =
     (case slurm_info env num_cpus slurm of
        Inl e \<Rightarrow> Inl e
      | Inr (cpus, node, job) \<Rightarrow>
          (let b = py_or url (WEBDAV_URL env);
               u = py_or user (WEBDAV_USERNAME env);
               p = py_or pw (WEBDAV_PASSWORD env)
           in if \<not> (truthy b \<and> truthy u \<and> truthy p) then Inl (ValueError missing_credentials)
              else Inr \<lparr> use_slurm = slurm, slurm_cpus = cpus, slurm_node = node, job_id = job,
                         base_url = rstrip_slash (the b), username = the u, password = the p \<rparr>))"

section \<open>PathFilter: \<open>filter_string\<close>\<close>

definition newline :: char where
  "newline = CHR 0x0A"

text \<open>
  \<open>re.search\<close> with a pattern that starts with a literal text: the scan goes through the
  input from the left and stops at the first position where the literal matches; the
  result is the rest of the input from that position.
\<close>

fun search_literal :: "string \<Rightarrow> string \<Rightarrow> string option" where
  "search_literal lit [] = (if lit = [] then Some [] else None)"
| "search_literal lit (c # cs) =
     (if prefix lit (c # cs) then Some (c # cs) else search_literal lit cs)"

text \<open>
  The pattern is \<open>/\<close>, then the base directory escaped by \<open>re.escape\<close> (so it matches as
  a literal), then \<open>.*\<close>. Without the \<open>DOTALL\<close> flag the dot matches every character but
  the newline, so the greedy \<open>.*\<close> runs to the first newline or to the end of the input.
  The pattern built from \<open>re.escape\<close> is always well formed: the \<open>re.error\<close> handler is
  never entered.
\<close>

definition filter_string :: "string \<Rightarrow> string \<Rightarrow> string option" where
  "filter_string base_string input_string =
     (case search_literal (CHR ''/'' # base_string) input_string of
        None \<Rightarrow> None
      | Some rest \<Rightarrow>
          Some (CHR ''/'' # base_string @
                takeWhile (\<lambda>c. c \<noteq> newline) (drop (Suc (length base_string)) rest)))"

section \<open>DirectoryLister: \<open>list_directory\<close>\<close>

text \<open>
  What the session hands back for a request once its retries are used up: a transport
  failure (a \<open>RequestException\<close>), or a response with a status code and a payload.
\<close>

datatype 'a reply = Failed string | Response nat 'a

text \<open>An XML element: tag, text (\<open>None\<close> for an element without text) and children.\<close>

datatype xml = Elem string "string option" "xml list"

fun tag :: "xml \<Rightarrow> string" where
  "tag (Elem t x cs) = t"

fun text_of :: "xml \<Rightarrow> string option" where
  "text_of (Elem t x cs) = x"

text \<open>The elements below an element, at every depth, in document order.\<close>

fun descendants :: "xml \<Rightarrow> xml list" where
  "descendants (Elem t x cs) = concat (map (\<lambda>c. c # descendants c) cs)"

text \<open>\<open>tree.findall('.//{DAV:}href')\<close>\<close>

definition findall_href :: "xml \<Rightarrow> xml list" where
  "findall_href tree = filter (\<lambda>e. tag e = ''{DAV:}href'') (descendants tree)"

text \<open>
  A GET response: the \<open>Content-Length\<close> header if there is one, the chunks that
  \<open>iter_content\<close> yields, and the exception that ends the stream early, if any.
\<close>

record get_payload =
  content_length :: "text_value option"
  chunks :: "string list"
  stream_error :: "string option"

text \<open>
  The server, seen through the session: a PROPFIND answers with a body that either is
  well-formed XML (\<open>Some tree\<close>) or is not (\<open>None\<close>, on which \<open>ET.fromstring\<close> raises).
\<close>

record server =
  propfind :: "string \<Rightarrow> xml option reply"
  get :: "string \<Rightarrow> get_payload reply"

text \<open>The log: one event for each logging call of the source.\<close>

datatype log_event =
    ListFailed string exn
  | AlreadyComplete string
  | Starting string
  | Progress string nat
  | Completed string
  | DownloadFailed string exn
  | TaskError string exn
  | FailedDownloads "string list"
  | FolderError exn

text \<open>\<open>response.raise_for_status()\<close>\<close>

definition raise_for_status :: "nat \<Rightarrow> exn + unit" where
  "raise_for_status status = (if 400 \<le> status \<and> status < 600 then Inl (HTTPError status) else Inr ())"

text \<open>
  \<open>list_directory\<close> returns the log events it adds and its result. Only a
  \<open>RequestException\<close> (a transport failure or the \<open>HTTPError\<close> of \<open>raise_for_status\<close>) is
  caught, logged with the remote folder, and raised again; a \<open>ParseError\<close> passes
  through unlogged.
\<close>

definition list_directory :: "downloader \<Rightarrow> server \<Rightarrow> string \<Rightarrow> log_event list \<times> (exn + string option list)" where
  "list_directory d srv remote_folder =
     (case propfind srv (base_url d @ remote_folder) of
        Failed m \<Rightarrow> ([ListFailed remote_folder (RequestException m)], Inl (RequestException m))
      | Response status body \<Rightarrow>
          (case raise_for_status status of
             Inl e \<Rightarrow> ([ListFailed remote_folder e], Inl e)
           | Inr u \<Rightarrow>
               if status = 207 then
                 (case body of
                    None \<Rightarrow> ([], Inl ParseError)
                  | Some tree \<Rightarrow> ([], Inr (map text_of (findall_href tree))))
               else ([], Inr [])))"

section \<open>Paths\<close>

text \<open>
  A path in \<open>pathlib\<close>'s POSIX normal form: the root (\<open>/\<close>, \<open>//\<close> or none) and the
  components, with empty components and \<open>.\<close> dropped. Components \<open>..\<close> are kept as they
  are, as \<open>pathlib\<close> keeps them; symbolic links are not modelled.
\<close>

type_synonym ppath = "string \<times> string list"

text \<open>Splitting at \<open>/\<close>: a character that is no separator goes to the first segment.\<close>

fun to_first :: "char \<Rightarrow> string list \<Rightarrow> string list" where
  "to_first c [] = [[c]]"
| "to_first c (seg # segs) = (c # seg) # segs"

fun split_slash :: "string \<Rightarrow> string list" where
  "split_slash [] = [[]]"
| "split_slash (c # cs) =
     (if c = CHR ''/'' then [] # split_slash cs else to_first c (split_slash cs))"

definition path_root :: "string \<Rightarrow> string" where
  "path_root t =
     (if take 2 t = ''//'' \<and> take 3 t \<noteq> ''///'' then ''//''
      else if take 1 t = ''/'' then ''/'' else [])"

definition kept :: "string list \<Rightarrow> string list" where
  "kept segs = filter (\<lambda>seg. seg \<noteq> [] \<and> seg \<noteq> ''.'') segs"

definition Path :: "string \<Rightarrow> ppath" where
  "Path t = (path_root t, kept (split_slash t))"

fun join_slash :: "string list \<Rightarrow> string" where
  "join_slash [] = []"
| "join_slash [x] = x"
| "join_slash (x # y # ys) = x @ CHR ''/'' # join_slash (y # ys)"

text \<open>\<open>str(path)\<close>\<close>

definition path_str :: "ppath \<Rightarrow> string" where
  "path_str p = (if fst p = [] \<and> snd p = [] then ''.'' else fst p @ join_slash (snd p))"

text \<open>\<open>path.parent\<close>: the parent of a path without components is the path itself.\<close>

definition path_parent :: "ppath \<Rightarrow> ppath" where
  "path_parent p = (fst p, butlast (snd p))"

text \<open>\<open>path.name\<close>\<close>

definition path_name :: "ppath \<Rightarrow> string" where
  "path_name p = (if snd p = [] then [] else last (snd p))"

text \<open>\<open>path / text\<close>: an absolute right operand replaces the left one.\<close>

definition path_div :: "ppath \<Rightarrow> string \<Rightarrow> ppath" where
  "path_div p t = (if path_root t \<noteq> [] then Path t else (fst p, snd p @ snd (Path t)))"


section \<open>The local file system\<close>

text \<open>
  A node is a regular file with its content or a directory with the size \<open>stat\<close> reports
  for it. The state holds the local tree, the failure ledgers by file name, the log and
  the number of response-body bytes read from the network so far (an observation of the
  transfers, not a variable of the source). The ledger lives in the working directory
  and is kept apart from the local tree; opening it for appending is taken to succeed.
\<close>

datatype node = File string | Dir nat

fun node_size :: "node \<Rightarrow> nat" where
  "node_size (File c) = length c"
| "node_size (Dir k) = k"

record state =
  fs :: "ppath \<rightharpoonup> node"
  new_dir_size :: nat
  ledgers :: "string \<Rightarrow> string"
  log :: "log_event list"
  body_bytes :: nat

text \<open>\<open>stat\<close>: the root and the working directory always exist and are directories.\<close>

definition stat :: "state \<Rightarrow> ppath \<Rightarrow> node option" where
  "stat s p = (if snd p = [] then Some (Dir (new_dir_size s)) else fs s p)"

definition is_dir :: "state \<Rightarrow> ppath \<Rightarrow> bool" where
  "is_dir s p = (case stat s p of Some (Dir k) \<Rightarrow> True | Some (File c) \<Rightarrow> False | None \<Rightarrow> False)"


text \<open>
  \<open>os.mkdir\<close> below a parent that is a directory, with \<open>exist_ok=True\<close>: an existing
  directory is accepted, an existing file raises \<open>FileExistsError\<close>.
\<close>

definition mkdir_exist_ok :: "ppath \<Rightarrow> state \<Rightarrow> state \<times> (exn + unit)" where
  "mkdir_exist_ok p s =
     (case fs s p of
        None \<Rightarrow> (s\<lparr>fs := (fs s)(p \<mapsto> Dir (new_dir_size s))\<rparr>, Inr ())
      | Some (Dir k) \<Rightarrow> (s, Inr ())
      | Some (File c) \<Rightarrow> (s, Inl (FileExistsError (path_str p))))"

text \<open>
  \<open>path.mkdir(parents=True, exist_ok=True)\<close>: when the parent is missing it is made first
  (with its own parents), then the directory itself; a parent that is a regular file
  raises \<open>NotADirectoryError\<close>.
\<close>

function mkdir_parents :: "ppath \<Rightarrow> state \<Rightarrow> state \<times> (exn + unit)" where
  "mkdir_parents p s =
     (if snd p = [] then (s, Inr ())
      else (case stat s (path_parent p) of
              None \<Rightarrow>
                (case mkdir_parents (path_parent p) s of
                   (s1, Inl e) \<Rightarrow> (s1, Inl e)
                 | (s1, Inr u) \<Rightarrow> mkdir_exist_ok p s1)
            | Some (File c) \<Rightarrow> (s, Inl (NotADirectoryError (path_str p)))
            | Some (Dir k) \<Rightarrow> mkdir_exist_ok p s))"
  by pat_completeness auto
termination
  by (relation "measure (\<lambda>(p, s). length (snd p))") (auto simp: path_parent_def)

text \<open>
  \<open>open(name, "wb")\<close>: the parent must be a directory and the name must not be one; the
  file is created or truncated.
\<close>

definition open_wb :: "string \<Rightarrow> state \<Rightarrow> exn + state" where
  "open_wb name s =
     (let p = Path name in
      case stat s (path_parent p) of
        None \<Rightarrow> Inl (FileNotFoundError name)
      | Some (File c) \<Rightarrow> Inl (NotADirectoryError name)
      | Some (Dir k) \<Rightarrow>
          (case stat s p of
             Some (Dir k') \<Rightarrow> Inl (IsADirectoryError name)
           | Some (File c) \<Rightarrow> Inr (s\<lparr>fs := (fs s)(p \<mapsto> File [])\<rparr>)
           | None \<Rightarrow> Inr (s\<lparr>fs := (fs s)(p \<mapsto> File [])\<rparr>)))"

text \<open>\<open>os.path.getsize(name)\<close>\<close>

definition getsize :: "string \<Rightarrow> state \<Rightarrow> exn + nat" where
  "getsize name s =
     (case stat s (Path name) of
        None \<Rightarrow> Inl (FileNotFoundError name)
      | Some n \<Rightarrow> Inr (node_size n))"

text \<open>\<open>os.path.exists(name)\<close>\<close>

definition path_exists :: "string \<Rightarrow> state \<Rightarrow> bool" where
  "path_exists name s = (stat s (Path name) \<noteq> None)"

text \<open>\<open>os.remove(name)\<close>: removes a regular file; a directory raises.\<close>

definition os_remove :: "string \<Rightarrow> state \<Rightarrow> exn + state" where
  "os_remove name s =
     (case stat s (Path name) of
        None \<Rightarrow> Inl (FileNotFoundError name)
      | Some (Dir k) \<Rightarrow> Inl (IsADirectoryError name)
      | Some (File c) \<Rightarrow> Inr (s\<lparr>fs := (fs s)(Path name := None)\<rparr>))"

text \<open>
  \<open>os.rename(src, dst)\<close> for a source that is a regular file (the only use in the
  downloader is on the temporary file it has just written): the destination's parent
  must be a directory, a destination that is a directory raises, a destination that is
  a regular file is replaced.
\<close>

definition os_rename :: "string \<Rightarrow> string \<Rightarrow> state \<Rightarrow> exn + state" where
  "os_rename src dst s =
     (case stat s (Path src) of
        None \<Rightarrow> Inl (FileNotFoundError src)
      | Some (Dir k) \<Rightarrow> Inl (IsADirectoryError src)
      | Some (File c) \<Rightarrow>
          (case stat s (path_parent (Path dst)) of
             None \<Rightarrow> Inl (FileNotFoundError dst)
           | Some (File c') \<Rightarrow> Inl (NotADirectoryError dst)
           | Some (Dir k) \<Rightarrow>
               (case stat s (Path dst) of
                  Some (Dir k') \<Rightarrow> Inl (IsADirectoryError dst)
                | Some (File c') \<Rightarrow> Inr (s\<lparr>fs := ((fs s)(Path src := None))(Path dst \<mapsto> File c)\<rparr>)
                | None \<Rightarrow> Inr (s\<lparr>fs := ((fs s)(Path src := None))(Path dst \<mapsto> File c)\<rparr>))))"

section \<open>FileTransfer: \<open>download_file\<close>\<close>

text \<open>Line 131: the temporary path, named by the job identity.\<close>

definition temp_path_of :: "downloader \<Rightarrow> string \<Rightarrow> string" where
  "temp_path_of d local_path = local_path @ ''.'' @ job_id d @ ''.temp''"

text \<open>Line 142: \<open>int(response.headers.get('content-length', 0))\<close>\<close>

definition file_size_of :: "get_payload \<Rightarrow> exn + int" where
  "file_size_of resp = (case content_length resp of None \<Rightarrow> Inr 0 | Some t \<Rightarrow> py_int t)"

text \<open>Line 148: \<open>local_path_obj.exists() and local_path_obj.stat().st_size == file_size\<close>\<close>

definition exists_with_size :: "state \<Rightarrow> string \<Rightarrow> int \<Rightarrow> bool" where
  "exists_with_size s local_path file_size =
     (case stat s (Path local_path) of
        None \<Rightarrow> False
      | Some n \<Rightarrow> int (node_size n) = file_size)"

text \<open>
  Lines 156 to 167, the loop over the chunks of the body. \<open>written\<close> is what has gone
  into the open file so far, so that \<open>downloaded\<close> is its length. Every chunk read counts
  as transferred; an empty chunk is not written. The arithmetic of the progress message
  is floating point and is left out of the log event.
\<close>

fun write_chunks :: "string \<Rightarrow> string \<Rightarrow> int \<Rightarrow> string list \<Rightarrow> string \<Rightarrow> state \<Rightarrow> state" where
  "write_chunks local_path temp_path file_size [] written s = s"
| "write_chunks local_path temp_path file_size (chunk # rest) written s =
     (let s1 = s\<lparr>body_bytes := body_bytes s + length chunk\<rparr> in
      if chunk \<noteq> [] then
        (let s2 = s1\<lparr>fs := (fs s1)(Path temp_path \<mapsto> File (written @ chunk))\<rparr>;
             downloaded = length (written @ chunk);
             s3 = (if file_size > 100 * 1024 * 1024 \<and> downloaded mod (50 * 1024 * 1024) = 0
                   then s2\<lparr>log := log s2 @ [Progress local_path downloaded]\<rparr> else s2)
         in write_chunks local_path temp_path file_size rest (written @ chunk) s3)
      else write_chunks local_path temp_path file_size rest written s1)"

text \<open>
  Lines 176 to 180, the handler of \<open>except Exception\<close>: it logs, removes the temporary
  path if it exists and returns \<open>False\<close>. An exception of \<open>os.remove\<close> is raised inside the
  handler and leaves \<open>download_file\<close>.
\<close>

definition download_failed :: "string \<Rightarrow> string \<Rightarrow> exn \<Rightarrow> state \<Rightarrow> state \<times> (exn + bool)" where
  "download_failed remote_path temp_path e s =
     (let s1 = s\<lparr>log := log s @ [DownloadFailed remote_path e]\<rparr> in
      if path_exists temp_path s1 then
        (case os_remove temp_path s1 of
           Inl e' \<Rightarrow> (s1, Inl e')
         | Inr s2 \<Rightarrow> (s2, Inr False))
      else (s1, Inr False))"

text \<open>Lines 152 to 174: the transfer to the temporary path, the size check and the rename.\<close>

definition transfer :: "string \<Rightarrow> string \<Rightarrow> string \<Rightarrow> int \<Rightarrow> get_payload \<Rightarrow> state \<Rightarrow> state \<times> (exn + bool)" where
  "transfer remote_path local_path temp_path file_size resp s =
     (let s1 = s\<lparr>log := log s @ [Starting local_path]\<rparr> in
      case open_wb temp_path s1 of
        Inl e \<Rightarrow> download_failed remote_path temp_path e s1
      | Inr s2 \<Rightarrow>
          (let s3 = write_chunks local_path temp_path file_size (chunks resp) [] s2 in
           case stream_error resp of
             Some m \<Rightarrow> download_failed remote_path temp_path (RequestException m) s3
           | None \<Rightarrow>
               (case getsize temp_path s3 of
                  Inl e \<Rightarrow> download_failed remote_path temp_path e s3
                | Inr temp_size \<Rightarrow>
                    if int temp_size \<noteq> file_size then
                      download_failed remote_path temp_path
                        (ValueError (''Downloaded file size mismatch for '' @ local_path)) s3
                    else
                      (case os_rename temp_path local_path s3 of
                         Inl e \<Rightarrow> download_failed remote_path temp_path e s3
                       | Inr s4 \<Rightarrow> (s4\<lparr>log := log s4 @ [Completed local_path]\<rparr>, Inr True)))))"

definition download_file :: "downloader \<Rightarrow> server \<Rightarrow> string \<Rightarrow> string \<Rightarrow> state \<Rightarrow> state \<times> (exn + bool)" where
  "download_file d srv remote_path local_path s =
     (let temp_path = temp_path_of d local_path in
      case get srv (base_url d @ remote_path) of
        Failed m \<Rightarrow> download_failed remote_path temp_path (RequestException m) s
      | Response status resp \<Rightarrow>
          (case raise_for_status status of
             Inl e \<Rightarrow> download_failed remote_path temp_path e s
           | Inr u \<Rightarrow>
               (case file_size_of resp of
                  Inl e \<Rightarrow> download_failed remote_path temp_path e s
                | Inr file_size \<Rightarrow>
                    (case mkdir_parents (path_parent (Path local_path)) s of
                       (s1, Inl e) \<Rightarrow> download_failed remote_path temp_path e s1
                     | (s1, Inr u') \<Rightarrow>
                         if exists_with_size s1 local_path file_size then
                           (s1\<lparr>log := log s1 @ [AlreadyComplete local_path]\<rparr>, Inr True)
                         else transfer remote_path local_path temp_path file_size resp s1))))"

section \<open>SyncScheduler: \<open>download_folder\<close>\<close>







text \<open>Lines 230 to 232: every exception of the body is logged and raised again.\<close>

definition folder_except :: "state \<times> (exn + unit) \<Rightarrow> state \<times> (exn + unit)" where
  "folder_except out =
     (case out of
        (s, Inl e) \<Rightarrow> (s\<lparr>log := log s @ [FolderError e]\<rparr>, Inl e)
      | (s, Inr u) \<Rightarrow> (s, Inr u))"




section \<open>Example inputs\<close>

text \<open>
  A downloader, a server and local states on which the theorems below are instantiated.
  The server holds \<open>a.txt\<close> (3 bytes, sent in chunks), \<open>nolen.txt\<close> (sent without
  \<open>Content-Length\<close>), \<open>short.txt\<close> (announced with 5 bytes, 2 sent) and \<open>bad.txt\<close> (with a
  \<open>Content-Length\<close> that is no number); the folder \<open>/flat/\<close> with two files, and the
  folder \<open>/data/\<close> with a file and the sub-folder \<open>/data/sub/\<close>, which it refuses to list.
\<close>

definition example_downloader :: downloader where
  "example_downloader =
     \<lparr> use_slurm = False, slurm_cpus = 4, slurm_node = ''local'', job_id = ''no_job'',
       base_url = ''http://h'', username = ''u'', password = ''p'' \<rparr>"

definition href :: "string \<Rightarrow> xml" where
  "href t = Elem ''{DAV:}response'' None [Elem ''{DAV:}href'' (Some t) []]"

definition example_server :: server where
  "example_server =
     \<lparr> propfind = (\<lambda>u.
         if u = ''http://h/data/'' then
           Response 207 (Some (Elem ''{DAV:}multistatus'' None
             [href ''/data/'', href ''/data/short.txt'', href ''/data/sub/'']))
         else if u = ''http://h/flat/'' then
           Response 207 (Some (Elem ''{DAV:}multistatus'' None
             [href ''/flat/'', href ''/flat/short.txt'', href ''/flat/a.txt'']))
         else Response 403 None),
       get = (\<lambda>u.
         if u = ''http://h/data/a.txt'' \<or> u = ''http://h/flat/a.txt'' then
           Response 200 \<lparr> content_length = Some (Numeral 3), chunks = [''ab'', [], ''c''],
                          stream_error = None \<rparr>
         else if u = ''http://h/data/nolen.txt'' then
           Response 200 \<lparr> content_length = None, chunks = [''x''], stream_error = None \<rparr>
         else if u = ''http://h/data/short.txt'' \<or> u = ''http://h/flat/short.txt'' then
           Response 200 \<lparr> content_length = Some (Numeral 5), chunks = [''ab''],
                          stream_error = None \<rparr>
         else if u = ''http://h/data/bad.txt'' then
           Response 200 \<lparr> content_length = Some (Other ''abc''), chunks = [''ab''],
                          stream_error = None \<rparr>
         else Response 404 \<lparr> content_length = None, chunks = [], stream_error = None \<rparr>) \<rparr>"



text \<open>A local tree in which the temporary path of \<open>out/a.txt\<close> is a directory.\<close>

definition blocked_state :: state where
  "blocked_state =
     \<lparr> fs = [([], [''out'']) \<mapsto> Dir 4096, ([], [''out'', ''a.txt.no_job.temp'']) \<mapsto> Dir 4096],
       new_dir_size = 4096, ledgers = (\<lambda>name. []), log = [], body_bytes = 0 \<rparr>"

section \<open>Properties of the path filter\<close>

lemma search_literal_Some:
  "search_literal lit t = Some r \<Longrightarrow> prefix lit r \<and> suffix r t"
proof (induction t)
  case Nil
  then show ?case by (auto split: if_splits)
next
  case (Cons c cs)
  then show ?case by (auto split: if_splits simp: suffix_Cons)
qed

lemma search_literal_first:
  assumes "prefix lit r"
      and "\<forall>j<length pre. \<not> prefix lit (drop j (pre @ r))"
  shows "search_literal lit (pre @ r) = Some r"
  using assms
proof (induction pre)
  case Nil
  then show ?case by (cases r) auto
next
  case (Cons c pre)
  have "\<not> prefix lit (c # pre @ r)" using Cons.prems(2) by force
  moreover have "\<forall>j<length pre. \<not> prefix lit (drop j (pre @ r))"
  proof (intro allI impI)
    fix j assume "j < length pre"
    then have "\<not> prefix lit (drop (Suc j) ((c # pre) @ r))" using Cons.prems(2) by force
    then show "\<not> prefix lit (drop j (pre @ r))" by simp
  qed
  ultimately show ?case using Cons by simp
qed

lemma search_literal_None:
  "(\<forall>j\<le>length t. \<not> prefix lit (drop j t)) \<Longrightarrow> search_literal lit t = None"
proof (induction t)
  case Nil
  then show ?case by auto
next
  case (Cons c cs)
  have "\<not> prefix lit (c # cs)" using Cons.prems by force
  moreover have "\<forall>j\<le>length cs. \<not> prefix lit (drop j cs)"
  proof (intro allI impI)
    fix j assume "j \<le> length cs"
    then have "\<not> prefix lit (drop (Suc j) (c # cs))" using Cons.prems by force
    then show "\<not> prefix lit (drop j cs)" by simp
  qed
  ultimately show ?case using Cons.IH by simp
qed


lemma filter_string_first:
  assumes "prefix (CHR ''/'' # base) (drop k raw)"
      and "\<forall>j<k. \<not> prefix (CHR ''/'' # base) (drop j raw)"
  shows "filter_string base raw =
           Some (CHR ''/'' # base @ takeWhile (\<lambda>c. c \<noteq> newline) (drop (k + Suc (length base)) raw))"
proof -
  have k: "k \<le> length raw" using assms(1) by (cases "k \<le> length raw") auto
  have "search_literal (CHR ''/'' # base) (take k raw @ drop k raw) = Some (drop k raw)"
    using assms k by (intro search_literal_first) (auto simp: min_def)
  then have "search_literal (CHR ''/'' # base) raw = Some (drop k raw)" by simp
  then show ?thesis by (simp add: filter_string_def add.commute)
qed

lemma takeWhile_all: "x \<notin> set t \<Longrightarrow> takeWhile (\<lambda>c. c \<noteq> x) t = t"
  by (induction t) auto

text \<open>
  Claim C6, as the code has it. When \<open>/\<close> followed by the base directory occurs in the
  raw entry, first at position \<open>k\<close>, \<open>filter_string\<close> returns the entry from position \<open>k\<close>
  up to the first newline after the occurrence, or up to the end of the entry when no
  newline follows; the base directory is matched as a literal text. In an entry without
  a newline after the occurrence this is the whole suffix from position \<open>k\<close>. When
  \<open>/\<close> followed by the base directory does not occur, and in particular when the base
  directory itself does not occur, the result is \<open>None\<close>.
\<close>

theorem filter_string_contract:
  "(prefix (CHR ''/'' # base) (drop k raw) \<and> (\<forall>j<k. \<not> prefix (CHR ''/'' # base) (drop j raw)) \<longrightarrow>
      filter_string base raw =
        Some (CHR ''/'' # base @ takeWhile (\<lambda>c. c \<noteq> newline) (drop (k + Suc (length base)) raw)) \<and>
      (newline \<notin> set (drop k raw) \<longrightarrow> filter_string base raw = Some (drop k raw))) \<and>
   ((\<forall>j\<le>length raw. \<not> prefix (CHR ''/'' # base) (drop j raw)) \<longrightarrow> filter_string base raw = None) \<and>
   ((\<forall>j\<le>length raw. \<not> prefix base (drop j raw)) \<longrightarrow> filter_string base raw = None)"
proof (intro conjI impI)
  assume a: "prefix (CHR ''/'' # base) (drop k raw) \<and> (\<forall>j<k. \<not> prefix (CHR ''/'' # base) (drop j raw))"
  then show r: "filter_string base raw =
      Some (CHR ''/'' # base @ takeWhile (\<lambda>c. c \<noteq> newline) (drop (k + Suc (length base)) raw))"
    using filter_string_first by blast
  assume n: "newline \<notin> set (drop k raw)"
  from a obtain post where post: "drop k raw = CHR ''/'' # base @ post"
    by (auto simp: prefix_def)
  then have "drop (k + Suc (length base)) raw = post"
    by (metis add.commute append_eq_conv_conj drop_drop length_Cons append_Cons)
  moreover have "newline \<notin> set post" using n post by simp
  ultimately show "filter_string base raw = Some (drop k raw)"
    using r post by (simp add: takeWhile_all)
next
  assume "\<forall>j\<le>length raw. \<not> prefix (CHR ''/'' # base) (drop j raw)"
  then show "filter_string base raw = None"
    by (simp add: filter_string_def search_literal_None)
next
  assume a: "\<forall>j\<le>length raw. \<not> prefix base (drop j raw)"
  have "\<forall>j\<le>length raw. \<not> prefix (CHR ''/'' # base) (drop j raw)"
  proof (intro allI impI notI)
    fix j assume j: "j \<le> length raw" and p: "prefix (CHR ''/'' # base) (drop j raw)"
    then obtain post where "drop j raw = CHR ''/'' # base @ post" by (auto simp: prefix_def)
    then have "drop (Suc j) raw = base @ post"
      by (metis drop_Suc list.sel(3) tl_drop)
    moreover have "Suc j \<le> length raw" using p j by (cases "j = length raw") auto
    ultimately show False using a by (metis prefixI)
  qed
  then show "filter_string base raw = None"
    by (simp add: filter_string_def search_literal_None)
qed

theorem filter_string_contract_witness:
  "filter_string ''data'' ''/x/data/a.txt'' = Some ''/data/a.txt'' \<and>
   filter_string ''data'' ''/x/y'' = None"
proof -
  have h1: "\<forall>j<2. \<not> prefix (CHR ''/'' # ''data'') (drop j ''/x/data/a.txt'')"
    by (auto simp: less_Suc_eq numeral_2_eq_2)
  have h2: "\<forall>j\<le>length ''/x/y''. \<not> prefix (CHR ''/'' # ''data'') (drop j ''/x/y'')"
    by (auto simp: le_Suc_eq)
  have 1: "filter_string ''data'' ''/x/data/a.txt'' = Some (drop 2 ''/x/data/a.txt'')"
    using filter_string_contract [of "''data''" 2 "''/x/data/a.txt''"] h1
    by (simp add: newline_def)
  have 2: "filter_string ''data'' ''/x/y'' = None"
    using filter_string_contract [of "''data''" 0 "''/x/y''"] h2 by blast
  show ?thesis using 1 2 by simp
qed

text \<open>
  The entry \<open>/data/a\<close>, newline, \<open>b\<close> with base directory \<open>data\<close>: the result stops before
  the newline and is not the suffix to the end of the entry.
\<close>

theorem filter_string_newline_counterexample:
  "filter_string ''data'' (''/data/a'' @ [newline] @ ''b'') \<noteq> Some (''/data/a'' @ [newline] @ ''b'') \<and>
   filter_string ''data'' (''/data/a'' @ [newline] @ ''b'') = Some ''/data/a''"
  by (simp add: filter_string_def newline_def)



section \<open>Properties of the directory lister\<close>

text \<open>
  Claim C5, as the code has it. A transport failure and a status from 400 to 599 make
  \<open>list_directory\<close> log the remote folder with the cause and raise the cause. Status 207
  gives the texts of the \<open>href\<close> elements (or a \<open>ParseError\<close> when the body is not
  well-formed). Every other status gives the empty list, without an error and without
  a log event.
\<close>

theorem list_directory_status:
  "(propfind srv (base_url d @ remote_folder) = Failed m \<longrightarrow>
      list_directory d srv remote_folder =
        ([ListFailed remote_folder (RequestException m)], Inl (RequestException m))) \<and>
   (propfind srv (base_url d @ remote_folder) = Response status body \<longrightarrow>
      (400 \<le> status \<and> status < 600 \<longrightarrow>
         list_directory d srv remote_folder =
           ([ListFailed remote_folder (HTTPError status)], Inl (HTTPError status))) \<and>
      (status = 207 \<longrightarrow>
         list_directory d srv remote_folder =
           ([], case body of None \<Rightarrow> Inl ParseError
                | Some tree \<Rightarrow> Inr (map text_of (findall_href tree)))) \<and>
      (status \<noteq> 207 \<and> \<not> (400 \<le> status \<and> status < 600) \<longrightarrow>
         list_directory d srv remote_folder = ([], Inr [])))"
  by (auto simp: list_directory_def raise_for_status_def split: option.splits)

theorem list_directory_status_witness:
  "list_directory
     \<lparr> use_slurm = False, slurm_cpus = 4, slurm_node = ''local'', job_id = ''no_job'',
       base_url = ''http://h'', username = ''u'', password = ''p'' \<rparr>
     \<lparr> propfind = (\<lambda>u. Response 403 None), get = (\<lambda>u. Failed ''down'') \<rparr> ''/data/'' =
     ([ListFailed ''/data/'' (HTTPError 403)], Inl (HTTPError 403)) \<and>
   list_directory
     \<lparr> use_slurm = False, slurm_cpus = 4, slurm_node = ''local'', job_id = ''no_job'',
       base_url = ''http://h'', username = ''u'', password = ''p'' \<rparr>
     \<lparr> propfind = (\<lambda>u. Failed ''timeout''), get = (\<lambda>u. Failed ''down'') \<rparr> ''/data/'' =
     ([ListFailed ''/data/'' (RequestException ''timeout'')], Inl (RequestException ''timeout'')) \<and>
   list_directory
     \<lparr> use_slurm = False, slurm_cpus = 4, slurm_node = ''local'', job_id = ''no_job'',
       base_url = ''http://h'', username = ''u'', password = ''p'' \<rparr>
     \<lparr> propfind = (\<lambda>u. Response 207 (Some (Elem ''{DAV:}multistatus'' None
          [Elem ''{DAV:}response'' None [Elem ''{DAV:}href'' (Some ''/data/'') []],
           Elem ''{DAV:}response'' None [Elem ''{DAV:}href'' (Some ''/data/a.txt'') []]]))),
       get = (\<lambda>u. Failed ''down'') \<rparr> ''/data/'' =
     ([], Inr [Some ''/data/'', Some ''/data/a.txt'']) \<and>
   list_directory
     \<lparr> use_slurm = False, slurm_cpus = 4, slurm_node = ''local'', job_id = ''no_job'',
       base_url = ''http://h'', username = ''u'', password = ''p'' \<rparr>
     \<lparr> propfind = (\<lambda>u. Response 204 None), get = (\<lambda>u. Failed ''down'') \<rparr> ''/data/'' = ([], Inr [])"
proof -
  let ?d = "\<lparr> use_slurm = False, slurm_cpus = 4, slurm_node = ''local'', job_id = ''no_job'',
       base_url = ''http://h'', username = ''u'', password = ''p'' \<rparr>"
  let ?tree = "Elem ''{DAV:}multistatus'' None
          [Elem ''{DAV:}response'' None [Elem ''{DAV:}href'' (Some ''/data/'') []],
           Elem ''{DAV:}response'' None [Elem ''{DAV:}href'' (Some ''/data/a.txt'') []]]"
  have 1: "list_directory ?d \<lparr> propfind = (\<lambda>u. Response 403 None), get = (\<lambda>u. Failed ''down'') \<rparr> ''/data/'' =
     ([ListFailed ''/data/'' (HTTPError 403)], Inl (HTTPError 403))"
    using list_directory_status [of "\<lparr> propfind = (\<lambda>u. Response 403 None), get = (\<lambda>u. Failed ''down'') \<rparr>"
        ?d "''/data/''" "''x''" 403 None]
    by simp
  have 2: "list_directory ?d \<lparr> propfind = (\<lambda>u. Failed ''timeout''), get = (\<lambda>u. Failed ''down'') \<rparr> ''/data/'' =
     ([ListFailed ''/data/'' (RequestException ''timeout'')], Inl (RequestException ''timeout''))"
    using list_directory_status [of "\<lparr> propfind = (\<lambda>u. Failed ''timeout''), get = (\<lambda>u. Failed ''down'') \<rparr>"
        ?d "''/data/''" "''timeout''" 0 None]
    by simp
  have 3: "list_directory ?d \<lparr> propfind = (\<lambda>u. Response 207 (Some ?tree)), get = (\<lambda>u. Failed ''down'') \<rparr> ''/data/'' =
     ([], Inr [Some ''/data/'', Some ''/data/a.txt''])"
    using list_directory_status [of "\<lparr> propfind = (\<lambda>u. Response 207 (Some ?tree)), get = (\<lambda>u. Failed ''down'') \<rparr>"
        ?d "''/data/''" "''x''" 207 "Some ?tree"]
    by (simp add: findall_href_def)
  have 4: "list_directory ?d \<lparr> propfind = (\<lambda>u. Response 204 None), get = (\<lambda>u. Failed ''down'') \<rparr> ''/data/'' =
     ([], Inr [])"
    using list_directory_status [of "\<lparr> propfind = (\<lambda>u. Response 204 None), get = (\<lambda>u. Failed ''down'') \<rparr>"
        ?d "''/data/''" "''x''" 204 None]
    by simp
  show ?thesis using 1 2 3 4 by simp
qed

text \<open>Status 200 is not 207, and \<open>list_directory\<close> returns the empty list for it.\<close>

theorem list_directory_status_200_counterexample:
  "list_directory
     \<lparr> use_slurm = False, slurm_cpus = 4, slurm_node = ''local'', job_id = ''no_job'',
       base_url = ''http://h'', username = ''u'', password = ''p'' \<rparr>
     \<lparr> propfind = (\<lambda>u. Response 200 None), get = (\<lambda>u. Failed ''down'') \<rparr> ''/data/'' = ([], Inr [])"
  by (simp add: list_directory_def raise_for_status_def)

section \<open>Properties of the construction\<close>

lemma py_int_Inl:
  "py_int v = Inl e \<longleftrightarrow>
     (\<exists>t. v = Other t \<and> e = ValueError (''invalid literal for int() with base 10: '' @ t))"
  by (cases v) auto

lemma slurm_info_cases:
  "slurm_info env num_cpus slurm = Inl e \<longleftrightarrow>
     slurm \<and> (\<exists>t. SLURM_CPUS_PER_TASK env = Some (Other t) \<and>
                 e = ValueError (''invalid literal for int() with base 10: '' @ t))"
proof (cases "SLURM_CPUS_PER_TASK env")
  case None
  then show ?thesis by (simp add: slurm_info_def)
next
  case (Some v)
  then show ?thesis by (cases v) (auto simp: slurm_info_def)
qed

text \<open>
  Claim C10, as the code has it. The construction raises exactly when one of the URL,
  the user name and the password is falsy after the fallback to its environment
  variable, or when \<open>use_slurm\<close> is set and \<open>SLURM_CPUS_PER_TASK\<close> is not an integer text;
  every exception it raises is a \<open>ValueError\<close>. Unless the second case applies, it raises
  the \<open>ValueError\<close> of the missing credentials exactly when one of the three is falsy; an
  empty string counts as absent.
\<close>

theorem init_value_error:
  "((\<exists>e. init env url user pw num_cpus slurm = Inl e) \<longleftrightarrow>
      (\<not> truthy (py_or url (WEBDAV_URL env)) \<or> \<not> truthy (py_or user (WEBDAV_USERNAME env)) \<or>
       \<not> truthy (py_or pw (WEBDAV_PASSWORD env)) \<or>
       (slurm \<and> (\<exists>t. SLURM_CPUS_PER_TASK env = Some (Other t))))) \<and>
   (\<forall>e. init env url user pw num_cpus slurm = Inl e \<longrightarrow> (\<exists>m. e = ValueError m)) \<and>
   (\<not> (slurm \<and> (\<exists>t. SLURM_CPUS_PER_TASK env = Some (Other t))) \<longrightarrow>
      (init env url user pw num_cpus slurm = Inl (ValueError missing_credentials) \<longleftrightarrow>
         (\<not> truthy (py_or url (WEBDAV_URL env)) \<or> \<not> truthy (py_or user (WEBDAV_USERNAME env)) \<or>
          \<not> truthy (py_or pw (WEBDAV_PASSWORD env)))))"
proof -
  show ?thesis
  proof (cases "slurm_info env num_cpus slurm")
    case (Inl e)
    then show ?thesis using slurm_info_cases [of env num_cpus slurm e]
      by (auto simp: init_def)
  next
    case (Inr v)
    then have "\<not> (slurm \<and> (\<exists>t. SLURM_CPUS_PER_TASK env = Some (Other t)))"
      using slurm_info_cases [of env num_cpus slurm] by auto
    then show ?thesis using Inr
      by (cases v) (auto simp: init_def Let_def)
  qed
qed

theorem init_value_error_witness:
  "init \<lparr> SLURM_CPUS_PER_TASK = None, SLURM_NODENAME = None, SLURM_JOB_ID = None,
          WEBDAV_URL = Some ''http://h/'', WEBDAV_USERNAME = Some ''u'', WEBDAV_PASSWORD = None,
          cpu_count = Some 8 \<rparr> None None (Some '''') None False
     = Inl (ValueError missing_credentials)"
  using init_value_error [of "\<lparr> SLURM_CPUS_PER_TASK = None, SLURM_NODENAME = None, SLURM_JOB_ID = None,
          WEBDAV_URL = Some ''http://h/'', WEBDAV_USERNAME = Some ''u'', WEBDAV_PASSWORD = None,
          cpu_count = Some 8 \<rparr>" None None "Some ''''" None False]
  by (simp add: py_or_def)

text \<open>
  With \<open>use_slurm\<close> set and \<open>SLURM_CPUS_PER_TASK=abc\<close> the construction raises the
  \<open>ValueError\<close> of \<open>int()\<close> although all three credentials are given.
\<close>

theorem init_slurm_cpus_counterexample:
  "init \<lparr> SLURM_CPUS_PER_TASK = Some (Other ''abc''), SLURM_NODENAME = None, SLURM_JOB_ID = None,
          WEBDAV_URL = None, WEBDAV_USERNAME = None, WEBDAV_PASSWORD = None,
          cpu_count = Some 8 \<rparr> (Some ''http://h'') (Some ''u'') (Some ''p'') None True
     = Inl (ValueError ''invalid literal for int() with base 10: abc'') \<and>
   truthy (py_or (Some ''http://h'') None) \<and> truthy (py_or (Some ''u'') None) \<and>
   truthy (py_or (Some ''p'') None)"
  by (simp add: init_def slurm_info_def py_or_def)

section \<open>Properties of paths\<close>

lemma to_first_nonempty: "to_first c segs \<noteq> []"
  by (cases segs) auto

lemma to_first_hd_tl: "segs \<noteq> [] \<Longrightarrow> to_first c segs = (c # hd segs) # tl segs"
  by (cases segs) auto

lemma split_slash_nonempty: "split_slash t \<noteq> []"
  by (induction t) (auto simp: to_first_nonempty)

lemma split_slash_Cons:
  "c \<noteq> CHR ''/'' \<Longrightarrow> split_slash (c # cs) = (c # hd (split_slash cs)) # tl (split_slash cs)"
  by (simp add: to_first_hd_tl split_slash_nonempty)

lemma split_slash_append:
  "split_slash (a @ b) =
     butlast (split_slash a) @ [last (split_slash a) @ hd (split_slash b)] @ tl (split_slash b)"
proof (induction a)
  case Nil
  then show ?case using split_slash_nonempty [of b] by simp
next
  case (Cons c a)
  show ?case
  proof (cases "c = CHR ''/''")
    case True
    then show ?thesis using Cons split_slash_nonempty [of a] by simp
  next
    case False
    obtain x xs where r: "split_slash a = x # xs"
      using split_slash_nonempty [of a] by (cases "split_slash a") auto
    show ?thesis using False Cons r by (cases xs) auto
  qed
qed

lemma split_slash_no_slash: "CHR ''/'' \<notin> set t \<Longrightarrow> split_slash t = [t]"
  by (induction t) auto

lemma hd_split_slash_dot: "hd (split_slash (CHR ''.'' # t)) \<noteq> []"
  by (simp add: to_first_hd_tl split_slash_nonempty)

lemma last_split_slash_temp:
  "last (split_slash (t @ ''.temp'')) = last (split_slash t) @ ''.temp''"
  using split_slash_append [of t "''.temp''"] by simp

lemma kept_append: "kept (xs @ ys) = kept xs @ kept ys"
  by (simp add: kept_def)

lemma kept_single: "kept [x] = (if x \<noteq> [] \<and> x \<noteq> ''.'' then [x] else [])"
  by (simp add: kept_def)

lemma kept_long: "2 \<le> length x \<Longrightarrow> kept [x] = [x]"
  by (cases x) (auto simp: kept_single)

lemma parts_append_suffix:
  assumes hdB: "hd (split_slash b) \<noteq> []"
      and lastB: "2 \<le> length (last (split_slash b))"
  shows "\<exists>x xs. kept (split_slash (a @ b)) = kept (butlast (split_slash a)) @ x # xs \<and>
           (xs = [] \<longrightarrow> x \<noteq> last (split_slash a))"
proof -
  define S where "S = split_slash a"
  define B where "B = split_slash b"
  have B_ne: "B \<noteq> []" unfolding B_def by (rule split_slash_nonempty)
  have parts: "kept (split_slash (a @ b)) = kept (butlast S) @ kept [last S @ hd B] @ kept (tl B)"
    unfolding S_def B_def by (simp add: split_slash_append kept_def)
  have hdB': "hd B \<noteq> []" using hdB by (simp add: B_def)
  have lastB': "2 \<le> length (last B)" using lastB by (simp add: B_def)
  have neq: "last S @ hd B \<noteq> last S" using hdB' by simp
  show ?thesis
  proof (cases "tl B = []")
    case True
    then have "B = [hd B]" using B_ne by (cases B) auto
    then have "hd B = last B" by (metis last.simps)
    then have "2 \<le> length (last S @ hd B)" using lastB' by simp
    then have "kept [last S @ hd B] = [last S @ hd B]"
      by (rule kept_long)
    then show ?thesis using parts True neq by (simp add: kept_def S_def)
  next
    case False
    then have "last (tl B) = last B" using B_ne by (cases B) auto
    then have "2 \<le> length (last (tl B))" using lastB' by simp
    then have "last (tl B) \<in> set (kept (tl B))"
      using False by (auto simp: kept_def)
    then obtain y ys where kt: "kept (tl B) = y # ys" by (cases "kept (tl B)") auto
    show ?thesis
    proof (cases "kept [last S @ hd B] = []")
      case True
      then have "last S @ hd B = ''.''" using hdB' by (auto simp: kept_single split: if_splits)
      then have "last S = []" using hdB' by (cases "last S") auto
      then have "y \<noteq> last S" using kt by (auto simp: kept_def dest!: arg_cong [where f = set])
      then show ?thesis using parts kt True by (simp add: S_def)
    next
      case False
      then have "kept [last S @ hd B] = [last S @ hd B]" by (auto simp: kept_single split: if_splits)
      then show ?thesis using parts kt by (simp add: S_def)
    qed
  qed
qed

lemma temp_suffix_facts:
  "hd (split_slash (''.'' @ j @ ''.temp'')) \<noteq> []"
  "2 \<le> length (last (split_slash (''.'' @ j @ ''.temp'')))"
proof -
  show "hd (split_slash (''.'' @ j @ ''.temp'')) \<noteq> []"
    using hd_split_slash_dot [of "j @ ''.temp''"] by simp
  have "last (split_slash ((''.'' @ j) @ ''.temp'')) = last (split_slash (''.'' @ j)) @ ''.temp''"
    by (rule last_split_slash_temp)
  then show "2 \<le> length (last (split_slash (''.'' @ j @ ''.temp'')))" by simp
qed

lemma parts_split: "kept (split_slash a) = kept (butlast (split_slash a)) @ kept [last (split_slash a)]"
  using split_slash_nonempty [of a] append_butlast_last_id [of "split_slash a"]
  by (metis kept_append)

lemma temp_parts_longer:
  "length (snd (Path lp)) \<le> length (snd (Path (temp_path_of d lp)))"
proof -
  obtain x xs where "kept (split_slash (lp @ ''.'' @ job_id d @ ''.temp'')) =
      kept (butlast (split_slash lp)) @ x # xs"
    using parts_append_suffix [where a = lp and b = "''.'' @ job_id d @ ''.temp''", OF temp_suffix_facts]
    by blast
  then show ?thesis
    using parts_split [of lp] by (simp add: Path_def temp_path_of_def kept_single)
qed


section \<open>Properties of the file system operations\<close>


lemma is_dir_root: "snd p = [] \<Longrightarrow> is_dir s p"
  by (simp add: is_dir_def stat_def)


lemma stat_cong:
  "fs s' p = fs s p \<Longrightarrow> new_dir_size s' = new_dir_size s \<Longrightarrow> stat s' p = stat s p"
  by (simp add: stat_def)

lemma is_dir_cong:
  "fs s' p = fs s p \<Longrightarrow> new_dir_size s' = new_dir_size s \<Longrightarrow> is_dir s p \<Longrightarrow> is_dir s' p"
  by (cases "snd p = []") (simp_all add: is_dir_def stat_def)

lemma path_parent_parts: "snd p \<noteq> [] \<Longrightarrow> length (snd (path_parent p)) < length (snd p)"
  by (simp add: path_parent_def)


text \<open>Making directories.\<close>

lemma mkdir_parents_root: "snd p = [] \<Longrightarrow> mkdir_parents p s = (s, Inr ())"
  by (subst mkdir_parents.simps) simp

lemma mkdir_parents_step:
  "snd p \<noteq> [] \<Longrightarrow> mkdir_parents p s =
     (case stat s (path_parent p) of
        None \<Rightarrow>
          (case mkdir_parents (path_parent p) s of
             (s1, Inl e) \<Rightarrow> (s1, Inl e)
           | (s1, Inr u) \<Rightarrow> mkdir_exist_ok p s1)
      | Some (File c) \<Rightarrow> (s, Inl (NotADirectoryError (path_str p)))
      | Some (Dir k) \<Rightarrow> mkdir_exist_ok p s)"
  by (subst mkdir_parents.simps) simp

declare mkdir_parents.simps [simp del]

lemma mkdir_exist_ok_fields:
  "mkdir_exist_ok p s = (s', r) \<Longrightarrow>
     new_dir_size s' = new_dir_size s \<and> ledgers s' = ledgers s \<and> log s' = log s \<and>
     body_bytes s' = body_bytes s"
  by (auto simp: mkdir_exist_ok_def split: option.splits node.splits)

lemma mkdir_exist_ok_frame:
  "mkdir_exist_ok p s = (s', r) \<Longrightarrow>
     fs s' q = fs s q \<or> (q = p \<and> fs s q = None \<and> fs s' q = Some (Dir (new_dir_size s)))"
  by (cases "q = p") (auto simp: mkdir_exist_ok_def split: option.splits node.splits)



lemma mkdir_parents_fields:
  "mkdir_parents p s = (s', r) \<Longrightarrow>
     new_dir_size s' = new_dir_size s \<and> ledgers s' = ledgers s \<and> log s' = log s \<and>
     body_bytes s' = body_bytes s"
proof (induction p s arbitrary: s' r rule: mkdir_parents.induct)
  case (1 p s)
  show ?case
  proof (cases "snd p = []")
    case True
    then show ?thesis using "1.prems" by (simp add: mkdir_parents_root)
  next
    case False
    show ?thesis
    proof (cases "stat s (path_parent p)")
      case None
      obtain s1 r1 where rec: "mkdir_parents (path_parent p) s = (s1, r1)" by fastforce
      have f1: "new_dir_size s1 = new_dir_size s \<and> ledgers s1 = ledgers s \<and> log s1 = log s \<and>
          body_bytes s1 = body_bytes s"
        using "1.IH" [OF False None rec] .
      show ?thesis
      proof (cases r1)
        case (Inl e)
        then show ?thesis using "1.prems" False None rec f1 by (simp add: mkdir_parents_step)
      next
        case (Inr u)
        then have "mkdir_exist_ok p s1 = (s', r)" using "1.prems" False None rec by (simp add: mkdir_parents_step)
        then show ?thesis using mkdir_exist_ok_fields f1 by metis
      qed
    next
      case (Some n)
      then show ?thesis using "1.prems" False mkdir_exist_ok_fields [of p s s' r]
        by (cases n) (auto simp: mkdir_parents_step)
    qed
  qed
qed

lemma mkdir_parents_frame:
  "mkdir_parents p s = (s', r) \<Longrightarrow>
     fs s' q = fs s q \<or>
     (fs s q = None \<and> fs s' q = Some (Dir (new_dir_size s)) \<and> snd q \<noteq> [] \<and>
      length (snd q) \<le> length (snd p))"
proof (induction p s arbitrary: s' r rule: mkdir_parents.induct)
  case (1 p s)
  show ?case
  proof (cases "snd p = []")
    case True
    then show ?thesis using "1.prems" by (simp add: mkdir_parents_root)
  next
    case False
    show ?thesis
    proof (cases "stat s (path_parent p)")
      case None
      obtain s1 r1 where rec: "mkdir_parents (path_parent p) s = (s1, r1)" by fastforce
      have f1: "fs s1 q = fs s q \<or>
         (fs s q = None \<and> fs s1 q = Some (Dir (new_dir_size s)) \<and> snd q \<noteq> [] \<and>
          length (snd q) \<le> length (snd (path_parent p)))"
        using "1.IH" [OF False None rec] .
      have n1: "new_dir_size s1 = new_dir_size s" using mkdir_parents_fields [OF rec] by simp
      have len: "length (snd (path_parent p)) \<le> length (snd p)" by (simp add: path_parent_def)
      show ?thesis
      proof (cases r1)
        case (Inl e)
        then have "s' = s1" using "1.prems" False None rec by (simp add: mkdir_parents_step)
        then show ?thesis using f1 len by auto
      next
        case (Inr u)
        then have m: "mkdir_exist_ok p s1 = (s', r)" using "1.prems" False None rec by (simp add: mkdir_parents_step)
        show ?thesis using mkdir_exist_ok_frame [OF m, of q] f1 n1 len False by auto
      qed
    next
      case (Some n)
      show ?thesis
      proof (cases n)
        case (File c)
        then show ?thesis using "1.prems" False Some by (simp add: mkdir_parents_step)
      next
        case (Dir k)
        then have m: "mkdir_exist_ok p s = (s', r)" using "1.prems" False Some by (simp add: mkdir_parents_step)
        show ?thesis using mkdir_exist_ok_frame [OF m, of q] False by auto
      qed
    qed
  qed
qed



text \<open>Streaming the body.\<close>

lemma write_chunks_empty:
  "\<exists>s1. write_chunks lp tp fsz ([] # cs) w s = write_chunks lp tp fsz cs w s1 \<and>
     fs s1 = fs s \<and> new_dir_size s1 = new_dir_size s \<and> ledgers s1 = ledgers s \<and>
     body_bytes s1 = body_bytes s"
  by (simp add: Let_def) (rule exI, rule conjI, rule refl, simp)

lemma write_chunks_chunk:
  assumes "c \<noteq> []"
  shows "\<exists>s3. write_chunks lp tp fsz (c # cs) w s = write_chunks lp tp fsz cs (w @ c) s3 \<and>
     fs s3 = (fs s)(Path tp \<mapsto> File (w @ c)) \<and> new_dir_size s3 = new_dir_size s \<and>
     ledgers s3 = ledgers s \<and> body_bytes s3 = body_bytes s + length c"
  using assms
  apply (simp add: Let_def)
  apply (intro conjI impI)
   apply (rule exI, rule conjI, rule refl, simp)+
  done

lemma write_chunks_fs:
  "fs (write_chunks lp tp fsz cs w s) q =
     (if q = Path tp \<and> concat cs \<noteq> [] then Some (File (w @ concat cs)) else fs s q)"
proof (induction cs arbitrary: w s)
  case Nil
  then show ?case by simp
next
  case (Cons c cs)
  show ?case
  proof (cases "c = []")
    case True
    obtain s1 where "write_chunks lp tp fsz (c # cs) w s = write_chunks lp tp fsz cs w s1"
      and "fs s1 = fs s"
      using write_chunks_empty [of lp tp fsz cs w s] True by auto
    then show ?thesis using Cons [of w s1] True by (simp del: concat_eq_Nil_conv write_chunks.simps)
  next
    case False
    obtain s3 where "write_chunks lp tp fsz (c # cs) w s = write_chunks lp tp fsz cs (w @ c) s3"
      and "fs s3 = (fs s)(Path tp \<mapsto> File (w @ c))"
      using write_chunks_chunk [OF False, of lp tp fsz cs w s] by auto
    then show ?thesis using Cons [of "w @ c" s3] False
      by (simp del: concat_eq_Nil_conv write_chunks.simps)
  qed
qed





lemma download_failed_bool:
  "download_failed rp tp e s = (s', r) \<Longrightarrow> \<not> is_dir s (Path tp) \<Longrightarrow>
     r = Inr False \<and> fs s' (Path tp) = None"
  by (cases "snd (Path tp) = []")
     (auto simp: download_failed_def os_remove_def path_exists_def is_dir_def stat_def Let_def
      split: if_splits sum.splits option.splits node.splits)

lemma download_failed_raises:
  "download_failed rp tp e s = (s', Inl e') \<Longrightarrow> e' = IsADirectoryError tp \<and> is_dir s (Path tp)"
  by (cases "snd (Path tp) = []")
     (auto simp: download_failed_def os_remove_def path_exists_def is_dir_def stat_def Let_def
      split: if_splits sum.splits option.splits node.splits)

text \<open>The transfer.\<close>

lemma open_wb_Inr:
  "open_wb tp s = Inr s2 \<Longrightarrow> s2 = s\<lparr>fs := (fs s)(Path tp \<mapsto> File [])\<rparr>"
  by (auto simp: open_wb_def Let_def split: option.splits node.splits)




section \<open>Properties of the file transfer\<close>

text \<open>The four ways through \<open>download_file\<close>.\<close>

lemma download_file_cases:
  assumes "download_file d srv rp lp s = (s', r)"
  obtains
    (request) e where "download_failed rp (temp_path_of d lp) e s = (s', r)"
      "get srv (base_url d @ rp) = Failed (case e of RequestException m \<Rightarrow> m | _ \<Rightarrow> []) \<or>
       (\<exists>status resp. get srv (base_url d @ rp) = Response status resp \<and>
          (raise_for_status status = Inl e \<or> file_size_of resp = Inl e))"
  | (mkdir) status resp fsz s1 e where
      "get srv (base_url d @ rp) = Response status resp" "raise_for_status status = Inr ()"
      "file_size_of resp = Inr fsz"
      "mkdir_parents (path_parent (Path lp)) s = (s1, Inl e)"
      "download_failed rp (temp_path_of d lp) e s1 = (s', r)"
  | (skip) status resp fsz s1 where
      "get srv (base_url d @ rp) = Response status resp" "raise_for_status status = Inr ()"
      "file_size_of resp = Inr fsz"
      "mkdir_parents (path_parent (Path lp)) s = (s1, Inr ())"
      "exists_with_size s1 lp fsz" "s' = s1\<lparr>log := log s1 @ [AlreadyComplete lp]\<rparr>" "r = Inr True"
  | (transfer) status resp fsz s1 where
      "get srv (base_url d @ rp) = Response status resp" "raise_for_status status = Inr ()"
      "file_size_of resp = Inr fsz"
      "mkdir_parents (path_parent (Path lp)) s = (s1, Inr ())"
      "\<not> exists_with_size s1 lp fsz"
      "transfer rp lp (temp_path_of d lp) fsz resp s1 = (s', r)"
proof (cases "get srv (base_url d @ rp)")
  case (Failed m)
  then show ?thesis using assms request [of "RequestException m"]
    by (simp add: download_file_def Let_def)
next
  case (Response status resp)
  show ?thesis
  proof (cases "raise_for_status status")
    case (Inl e)
    then show ?thesis using assms Response request [of e]
      by (simp add: download_file_def Let_def)
  next
    case (Inr u)
    show ?thesis
    proof (cases "file_size_of resp")
      case (Inl e)
      then show ?thesis using assms Response Inr request [of e]
        by (simp add: download_file_def Let_def)
    next
      case fsz: (Inr fsz)
      obtain s1 r1 where m: "mkdir_parents (path_parent (Path lp)) s = (s1, r1)" by fastforce
      show ?thesis
      proof (cases r1)
        case (Inl e)
        then show ?thesis using assms Response Inr fsz m mkdir [of status resp fsz s1 e]
          by (simp add: download_file_def Let_def)
      next
        case r1: (Inr u')
        show ?thesis
        proof (cases "exists_with_size s1 lp fsz")
          case True
          then show ?thesis using assms Response Inr fsz m r1 skip [of status resp fsz s1]
            by (simp add: download_file_def Let_def)
        next
          case False
          then show ?thesis using assms Response Inr fsz m r1 transfer [of status resp fsz s1]
            by (simp add: download_file_def Let_def)
        qed
      qed
    qed
  qed
qed

text \<open>The ancestors of a path are shorter than the path.\<close>

lemma shorter_neq: "length (snd q) < length (snd p) \<Longrightarrow> q \<noteq> p"
  by auto

lemma mkdir_parent_keeps:
  assumes "mkdir_parents (path_parent (Path lp)) s = (s1, r1)"
      and "length (snd (Path lp)) \<le> length (snd q)"
  shows "fs s1 q = fs s q"
proof (cases "snd (Path lp) = []")
  case True
  then have "snd (path_parent (Path lp)) = []" by (simp add: path_parent_def)
  then show ?thesis using assms(1) by (simp add: mkdir_parents_root)
next
  case False
  then have "length (snd (path_parent (Path lp))) < length (snd q)"
    using assms(2) path_parent_parts [OF False] by simp
  then show ?thesis using mkdir_parents_frame [OF assms(1), of q] by auto
qed









text \<open>The definitions that evaluate a call on a concrete input.\<close>

lemmas eval_paths = Path_def path_root_def kept_def path_parent_def path_name_def path_div_def
  path_str_def

lemmas eval_download = download_file_def temp_path_of_def raise_for_status_def file_size_of_def
  mkdir_parents_step mkdir_parents_root stat_def mkdir_exist_ok_def exists_with_size_def
  transfer_def open_wb_def download_failed_def path_exists_def os_remove_def os_rename_def
  getsize_def Let_def example_downloader_def example_server_def











lemma download_failed_returns:
  "download_failed rp tp e s = (s', r) \<Longrightarrow> \<not> is_dir s (Path tp) \<Longrightarrow> r = Inr False"
  using download_failed_bool by blast

lemma not_dir_cong:
  "fs s1 p = fs s p \<Longrightarrow> new_dir_size s1 = new_dir_size s \<Longrightarrow> \<not> is_dir s p \<Longrightarrow> \<not> is_dir s1 p"
  using is_dir_cong [of s p s1] by auto

lemma transfer_returns_bool:
  assumes "transfer rp lp tp fsz resp s = (s', r)" and "\<not> is_dir s (Path tp)"
  shows "\<exists>b. r = Inr b"
proof -
  let ?s1 = "s\<lparr>log := log s @ [Starting lp]\<rparr>"
  have n1: "\<not> is_dir ?s1 (Path tp)" using assms(2) by (intro not_dir_cong [of ?s1 _ s]) auto
  show ?thesis
  proof (cases "open_wb tp ?s1")
    case (Inl e)
    then have "download_failed rp tp e ?s1 = (s', r)" using assms(1) by (simp add: transfer_def)
    then show ?thesis using download_failed_returns n1 by blast
  next
    case (Inr s2)
    have s2: "s2 = ?s1\<lparr>fs := (fs ?s1)(Path tp \<mapsto> File [])\<rparr>" using open_wb_Inr [OF Inr] .
    have ne: "snd (Path tp) \<noteq> []" using assms(2) is_dir_root by blast
    let ?s3 = "write_chunks lp tp fsz (chunks resp) [] s2"
    have "\<exists>c. fs ?s3 (Path tp) = Some (File c)"
      using s2 by (simp add: write_chunks_fs del: concat_eq_Nil_conv)
    then have n3: "\<not> is_dir ?s3 (Path tp)" using ne by (auto simp: is_dir_def stat_def)
    have "(\<exists>e. download_failed rp tp e ?s3 = (s', r)) \<or> r = Inr True"
      using assms(1) Inr
      by (auto simp: transfer_def Let_def split: option.splits sum.splits if_splits)
    then show ?thesis using download_failed_returns n3 by blast
  qed
qed

text \<open>
  Unless the temporary path is a directory when the call starts, \<open>download_file\<close> raises
  nothing and returns a boolean.
\<close>

lemma download_file_returns_bool:
  assumes "download_file d srv rp lp s = (s', r)" and "\<not> is_dir s (Path (temp_path_of d lp))"
  shows "\<exists>b. r = Inr b"
  using assms(1)
proof (cases rule: download_file_cases)
  case (request e)
  then show ?thesis using download_failed_returns assms(2) by blast
next
  case (mkdir status resp fsz s1 e)
  have "fs s1 (Path (temp_path_of d lp)) = fs s (Path (temp_path_of d lp))"
    using mkdir_parent_keeps [OF mkdir(4)] temp_parts_longer by blast
  then have "\<not> is_dir s1 (Path (temp_path_of d lp))"
    using assms(2) mkdir_parents_fields [OF mkdir(4)] by (intro not_dir_cong [of s1 _ s]) auto
  then show ?thesis using download_failed_returns mkdir(5) by blast
next
  case (skip status resp fsz s1)
  then show ?thesis by blast
next
  case (transfer status resp fsz s1)
  have "fs s1 (Path (temp_path_of d lp)) = fs s (Path (temp_path_of d lp))"
    using mkdir_parent_keeps [OF transfer(4)] temp_parts_longer by blast
  then have "\<not> is_dir s1 (Path (temp_path_of d lp))"
    using assms(2) mkdir_parents_fields [OF transfer(4)] by (intro not_dir_cong [of s1 _ s]) auto
  then show ?thesis using transfer_returns_bool [OF transfer(6)] by blast
qed

text \<open>
  Claim C2 at an input on which the code raises. The temporary path of \<open>out/a.txt\<close> is a
  directory: \<open>open\<close> raises \<open>IsADirectoryError\<close>, the handler finds that the temporary path
  exists and calls \<open>os.remove\<close> on it, which raises again, inside the handler; the
  exception leaves \<open>download_file\<close> and no boolean is returned.
\<close>

theorem download_file_raises_when_temp_is_directory:
  "snd (download_file example_downloader example_server ''/data/a.txt'' ''out/a.txt'' blocked_state)
     = Inl (IsADirectoryError ''out/a.txt.no_job.temp'')"
  by (simp add: eval_download eval_paths blocked_state_def)














section \<open>Properties of the scheduler\<close>






lemma folder_except_Inl: "folder_except out = (s', Inl e) \<Longrightarrow> \<exists>s0. out = (s0, Inl e)"
  by (cases out) (auto simp: folder_except_def split: sum.splits)

lemma folder_except_Inr: "folder_except (s, Inr u) = (s, Inr u)"
  by (simp add: folder_except_def)














end
